theory Spec2Isabelle
  imports Complex_Main
begin

section \<open>DJI frame geotagging: the model of \<open>frame_geotag_dji.py\<close>\<close>

text \<open>
  Conventions of the embedding.
  \<^item> A Python \<open>float\<close> is modelled as a \<open>real\<close>: arithmetic is exact, and the
    values \<open>inf\<close> and \<open>nan\<close> do not exist. Every statement about a float below is
    a statement about this idealisation.
  \<^item> A Python \<open>int\<close> is an \<open>int\<close>.
  \<^item> A Python \<open>str\<close> is a \<open>string\<close>; a character stands for the code point of
    the same number (0 to 255).
  \<^item> An exception is a value of \<open>py_error\<close>.
\<close>

datatype py_error = ValueError | ZeroDivisionError

subsection \<open>Python's numeric built-ins\<close>

text \<open>\<open>int(x)\<close> on a float: truncation toward zero.\<close>

definition py_int :: "real \<Rightarrow> int" where
  "py_int x = (if 0 \<le> x then \<lfloor>x\<rfloor> else \<lceil>x\<rceil>)"

text \<open>Rounding to the nearest integer, a tie going to the even neighbour.\<close>

definition round_half_even :: "real \<Rightarrow> int" where
  "round_half_even x =
     (let f = \<lfloor>x\<rfloor>; d = x - of_int f
      in if d < 1 / 2 then f
         else if 1 / 2 < d then f + 1
         else if even f then f else f + 1)"

text \<open>\<open>round(x, ndigits)\<close> on a float.\<close>

definition py_round :: "real \<Rightarrow> nat \<Rightarrow> real" where
  "py_round x ndigits = of_int (round_half_even (x * 10 ^ ndigits)) / 10 ^ ndigits"

text \<open>\<open>a / b\<close> on floats: a zero divisor raises.\<close>

definition py_div :: "real \<Rightarrow> real \<Rightarrow> py_error + real" where
  "py_div a b = (if b = 0 then Inl ZeroDivisionError else Inr (a / b))"

subsection \<open>\<open>to_deg\<close> (lines 14 to 27)\<close>

text \<open>
  \<open>loc\<close> is the two-element list of the call sites, \<open>["N", "S"]\<close> or
  \<open>["E", "W"]\<close>, as a pair: \<open>fst loc\<close> is \<open>loc[0]\<close> and \<open>snd loc\<close> is \<open>loc[1]\<close>.
  The result is the tuple \<open>(deg, min, sec, loc_value)\<close>.
\<close>

definition to_deg :: "real \<Rightarrow> string \<times> string \<Rightarrow> int \<times> int \<times> real \<times> string" where
  "to_deg val loc =
     (let loc_value = (if val < 0 then snd loc else if 0 < val then fst loc else []);
          abs_value = \<bar>val\<bar>;
          deg = py_int abs_value;
          t1 = (abs_value - of_int deg) * 60;
          mn = py_int t1;
          sec = py_round ((t1 - of_int mn) * 60) 5
      in (deg, mn, sec, loc_value))"

subsection \<open>The regular expressions of \<open>parse_dji_gps_data\<close>\<close>

text \<open>The class \<open>\s\<close> on the code points 0 to 255.\<close>

definition is_space :: "char \<Rightarrow> bool" where
  "is_space c =
     (let n = (of_char c :: nat)
      in (9 \<le> n \<and> n \<le> 13) \<or> (28 \<le> n \<and> n \<le> 32) \<or> n = 133 \<or> n = 160)"

text \<open>The class \<open>\d\<close> on the code points 0 to 255: the ten ASCII digits.\<close>

definition is_digit :: "char \<Rightarrow> bool" where
  "is_digit c = (let n = (of_char c :: nat) in 48 \<le> n \<and> n \<le> 57)"

text \<open>The class \<open>[-\d.]\<close> of the capture group.\<close>

definition is_num_char :: "char \<Rightarrow> bool" where
  "is_num_char c = (c = CHR ''-'' \<or> is_digit c \<or> c = CHR ''.'')"

fun strip_prefix :: "string \<Rightarrow> string \<Rightarrow> string option" where
  "strip_prefix [] s = Some s"
| "strip_prefix (p # ps) [] = None"
| "strip_prefix (p # ps) (c # cs) = (if p = c then strip_prefix ps cs else None)"

text \<open>
  One attempt of the pattern \<open>key \s* ([-\d.]+) ]?\<close> at the start of \<open>s\<close>; the result
  is group 1. \<open>closing\<close> says whether the pattern ends with the literal \<open>]\<close>. The
  three classes \<open>\s\<close>, \<open>[-\d.]\<close> and \<open>]\<close> are pairwise disjoint, so the greedy
  \<open>\s*\<close> and the greedy group each take their whole run and backtracking into a
  shorter run can never make the rest of the pattern match.
\<close>

definition match_here :: "string \<Rightarrow> bool \<Rightarrow> string \<Rightarrow> string option" where
  "match_here key closing s =
     (case strip_prefix key s of
        None \<Rightarrow> None
      | Some r \<Rightarrow>
          (let r1 = dropWhile is_space r;
               grp = takeWhile is_num_char r1;
               r2 = dropWhile is_num_char r1
           in if grp = [] then None
              else if closing
                then (case r2 of [] \<Rightarrow> None
                      | c # _ \<Rightarrow> if c = CHR '']'' then Some grp else None)
                else Some grp))"

text \<open>\<open>re.search\<close>: the attempt at the leftmost position that matches.\<close>

fun re_search :: "string \<Rightarrow> bool \<Rightarrow> string \<Rightarrow> string option" where
  "re_search key closing [] = match_here key closing []"
| "re_search key closing (c # cs) =
     (case match_here key closing (c # cs) of
        Some g \<Rightarrow> Some g
      | None \<Rightarrow> re_search key closing cs)"

subsection \<open>\<open>float\<close> on a captured group\<close>

fun digits_val :: "string \<Rightarrow> nat \<Rightarrow> nat" where
  "digits_val [] acc = acc"
| "digits_val (c # cs) acc = digits_val cs (10 * acc + (of_char c - 48))"

text \<open>
  \<open>float(s)\<close> for a string \<open>s\<close> over \<open>[-\d.]\<close>, the only strings the capture
  groups hold: an optional minus sign, then digits with at most one point and at
  least one digit. Anything else raises \<open>ValueError\<close>.
\<close>

definition py_float :: "string \<Rightarrow> py_error + real" where
  "py_float s =
     (let neg = (case s of [] \<Rightarrow> False | c # _ \<Rightarrow> c = CHR ''-'');
          body = (if neg then tl s else s);
          ip = takeWhile is_digit body;
          rest = dropWhile is_digit body;
          sg = (if neg then - 1 else 1 :: real)
      in case rest of
           [] \<Rightarrow> if ip = [] then Inl ValueError else Inr (sg * of_nat (digits_val ip 0))
         | c # fp \<Rightarrow>
             if c = CHR ''.'' \<and> list_all is_digit fp \<and> (ip \<noteq> [] \<or> fp \<noteq> [])
             then Inr (sg * (of_nat (digits_val ip 0)
                             + of_nat (digits_val fp 0) / 10 ^ length fp))
             else Inl ValueError)"

subsection \<open>\<open>parse_dji_gps_data\<close> (lines 29 to 51)\<close>

text \<open>
  The result is the tuple \<open>(lat, lon, abs_alt, rel_alt)\<close> or \<open>None\<close>. A
  \<open>ValueError\<close> of any of the four conversions is caught and gives \<open>None\<close>.
\<close>

definition parse_dji_gps_data :: "string \<Rightarrow> (real \<times> real \<times> real \<times> real option) option" where
  "parse_dji_gps_data srt_text =
     (let lat_match = re_search ''[latitude:'' True srt_text;
          lon_match = re_search ''[longitude:'' True srt_text;
          rel_alt_match = re_search ''[rel_alt:'' False srt_text;
          abs_alt_match = re_search ''abs_alt:'' True srt_text
      in case (lat_match, lon_match, abs_alt_match) of
           (Some lat_s, Some lon_s, Some abs_s) \<Rightarrow>
             (case py_float lat_s of
                Inl e \<Rightarrow> None
              | Inr lat \<Rightarrow>
             (case py_float lon_s of
                Inl e \<Rightarrow> None
              | Inr lon \<Rightarrow>
             (case py_float abs_s of
                Inl e \<Rightarrow> None
              | Inr abs_alt \<Rightarrow>
             (case rel_alt_match of
                None \<Rightarrow> Some (lat, lon, abs_alt, None)
              | Some rel_s \<Rightarrow>
                  (case py_float rel_s of
                     Inl e \<Rightarrow> None
                   | Inr rel_alt \<Rightarrow> Some (lat, lon, abs_alt, Some rel_alt))))))
         | _ \<Rightarrow> None)"

subsection \<open>The GPS group of the metadata block (lines 56 to 71)\<close>

text \<open>
  The dictionary \<open>gps_ifd\<close>, one field per key. A rational is a pair
  \<open>(numerator, denominator)\<close>.
\<close>

record gps_ifd =
  GPSLatitudeRef :: string
  GPSLatitude :: "(int \<times> int) \<times> (int \<times> int) \<times> (int \<times> int)"
  GPSLongitudeRef :: string
  GPSLongitude :: "(int \<times> int) \<times> (int \<times> int) \<times> (int \<times> int)"
  GPSAltitudeRef :: int
  GPSAltitude :: "int \<times> int"

text \<open>
  The expression \<open>(int(v * scale), scale)\<close>, which the source writes out three
  times: with scale 100 for the altitude and with scale 100000 for the seconds of
  the latitude and of the longitude.
\<close>

definition to_rational :: "real \<Rightarrow> int \<Rightarrow> int \<times> int" where
  "to_rational v scale = (py_int (v * of_int scale), scale)"

definition make_gps_ifd :: "real \<Rightarrow> real \<Rightarrow> real \<Rightarrow> gps_ifd" where
  "make_gps_ifd lat lon abs_alt =
     (case to_deg lat (''N'', ''S'') of (lat_d, lat_m, lat_s, lat_ref) \<Rightarrow>
      case to_deg lon (''E'', ''W'') of (lon_d, lon_m, lon_s, lon_ref) \<Rightarrow>
      let abs_alt_rational = to_rational abs_alt 100
      in \<lparr> GPSLatitudeRef = lat_ref,
           GPSLatitude = ((lat_d, 1), (lat_m, 1), to_rational lat_s 100000),
           GPSLongitudeRef = lon_ref,
           GPSLongitude = ((lon_d, 1), (lon_m, 1), to_rational lon_s 100000),
           GPSAltitudeRef = 0,
           GPSAltitude = abs_alt_rational \<rparr>)"

text \<open>The number a rational stands for: numerator over denominator.\<close>

definition rational_value :: "int \<times> int \<Rightarrow> real" where
  "rational_value r = of_int (fst r) / of_int (snd r)"

text \<open>
  Modelled from the spec: the decoder of a tag. The repository only writes tags, so
  the decoder of the round trip is the reading the metadata standard gives the
  fields: a coordinate is degrees plus minutes over 60 plus seconds over 3600,
  negated for the references \<open>S\<close> and \<open>W\<close>, and an altitude is negated for the
  reference 1 (below sea level).
\<close>

definition decode_coordinate ::
  "string \<Rightarrow> string \<Rightarrow> (int \<times> int) \<times> (int \<times> int) \<times> (int \<times> int) \<Rightarrow> real" where
  "decode_coordinate negative_ref ref dms =
     (case dms of (d, m, s) \<Rightarrow>
        (if ref = negative_ref then - 1 else 1)
        * (rational_value d + rational_value m / 60 + rational_value s / 3600))"

definition decode_latitude :: "gps_ifd \<Rightarrow> real" where
  "decode_latitude g = decode_coordinate ''S'' (GPSLatitudeRef g) (GPSLatitude g)"

definition decode_longitude :: "gps_ifd \<Rightarrow> real" where
  "decode_longitude g = decode_coordinate ''W'' (GPSLongitudeRef g) (GPSLongitude g)"

definition decode_altitude :: "gps_ifd \<Rightarrow> real" where
  "decode_altitude g =
     (if GPSAltitudeRef g = 1 then - rational_value (GPSAltitude g)
      else rational_value (GPSAltitude g))"

subsection \<open>The libraries \<open>piexif\<close> and \<open>pysrt\<close>\<close>

text \<open>
  The metadata block that \<open>piexif.load\<close> returns is a dictionary from group names
  (\<open>"0th"\<close>, \<open>"Exif"\<close>, \<open>"GPS"\<close>, ...) to groups. Only the GPS group has a
  structure here.
\<close>

datatype ifd = GPS_IFD gps_ifd | Other_IFD string

type_synonym exif_dict = "string \<rightharpoonup> ifd"

text \<open>
  The library calls are parameters of the model; \<open>'fs\<close> is the state of the image
  files. An exception of a call is \<open>Inl\<close> (or \<open>Some\<close>) of its message.
  \<open>px_insert\<close> returns the files as the call leaves them, also when it raises.
  \<open>pysrt_open\<close> reads a subtitle file; the run writes image files only.
\<close>

record sub =
  sub_start_ms :: int
  sub_end_ms :: int
  sub_text :: string

record 'fs libs =
  px_load :: "'fs \<Rightarrow> string \<Rightarrow> string + exif_dict"
  px_dump :: "exif_dict \<Rightarrow> string + string"
  px_insert :: "string \<Rightarrow> string \<Rightarrow> 'fs \<Rightarrow> string option \<times> 'fs"
  pysrt_open :: "string \<Rightarrow> string + sub list"

subsection \<open>What the run prints\<close>

datatype event =
    NoMatchingGroups
  | FoundGroups nat
  | GroupInfo string nat string
  | RateSettingsHeader
  | InvalidFrameRate
  | InvalidExtractionRate
  | VideoFpsInfo real
  | ExtractionInfo real real
  | ProcessingGroup string
  | SrtParsed string nat
  | SrtError string string
  | Tagging string int real real real "real option"
  | ExifWriteError string string
  | ParseWarning string
  | NoMatchWarning string int real
  | GroupSummary string nat nat
  | Complete
  | FinalSummary nat nat nat
  | AltitudeNote

subsection \<open>\<open>set_gps_location\<close> (lines 53 to 80)\<close>

text \<open>The result is what the call printed, the files after it and its return value.\<close>

definition set_gps_location ::
  "'fs libs \<Rightarrow> 'fs \<Rightarrow> string \<Rightarrow> real \<Rightarrow> real \<Rightarrow> real \<Rightarrow> real option
     \<Rightarrow> event list \<times> 'fs \<times> bool" where
  "set_gps_location lb fs file_path lat lon abs_alt rel_alt =
     (case px_load lb fs file_path of
        Inl e \<Rightarrow> ([ExifWriteError file_path e], fs, False)
      | Inr exif_dict \<Rightarrow>
          (case px_dump lb (exif_dict(''GPS'' \<mapsto> GPS_IFD (make_gps_ifd lat lon abs_alt))) of
             Inl e \<Rightarrow> ([ExifWriteError file_path e], fs, False)
           | Inr exif_bytes \<Rightarrow>
               (case px_insert lb exif_bytes file_path fs of
                  (Some e, fs') \<Rightarrow> ([ExifWriteError file_path e], fs', False)
                | (None, fs') \<Rightarrow> ([], fs', True))))"

subsection \<open>The temporal alignment (lines 210 to 222)\<close>

text \<open>
  The two frame rates that \<open>geotag_dji_frames\<close> holds in its local variables
  \<open>video_fps\<close> and \<open>extraction_fps\<close> while it processes the frames.
\<close>

record settings =
  video_fps :: real
  extraction_fps :: real

text \<open>Line 212: \<open>(frame_number - 1) / extraction_fps\<close>.\<close>

definition frame_time_seconds :: "settings \<Rightarrow> int \<Rightarrow> py_error + real" where
  "frame_time_seconds cfg frame_number =
     py_div (of_int (frame_number - 1)) (extraction_fps cfg)"

text \<open>Line 222: \<open>sub_start_ms <= frame_timedelta_ms <= sub_end_ms\<close>.\<close>

definition in_interval :: "real \<Rightarrow> sub \<Rightarrow> bool" where
  "in_interval t s = (of_int (sub_start_ms s) \<le> t \<and> t \<le> of_int (sub_end_ms s))"

text \<open>
  The loop \<open>for sub in subs\<close> of lines 217 to 239: both branches under the test
  of line 222 end in \<open>break\<close>, so the loop stops at the first subtitle whose
  interval holds the timestamp, and runs to the end of the list when there is none.
\<close>

fun find_sub :: "real \<Rightarrow> sub list \<Rightarrow> sub option" where
  "find_sub t [] = None"
| "find_sub t (s # subs) = (if in_interval t s then Some s else find_sub t subs)"

subsection \<open>One frame (lines 207 to 242)\<close>

text \<open>\<open>os.path.join\<close> of two components, on POSIX.\<close>

definition os_path_join :: "string \<Rightarrow> string \<Rightarrow> string" where
  "os_path_join a b =
     (if b \<noteq> [] \<and> hd b = CHR ''/'' then b
      else if a = [] \<or> last a = CHR ''/'' then a @ b
      else a @ ''/'' @ b)"

text \<open>
  The state of a run: the image files, the lines printed so far, and the two
  counters over all groups.
\<close>

record 'fs run_state =
  files :: 'fs
  printed :: "event list"
  total_success :: nat
  total_images :: nat

definition print_line :: "event list \<Rightarrow> 'fs run_state \<Rightarrow> 'fs run_state" where
  "print_line evs st = st\<lparr>printed := printed st @ evs\<rparr>"

text \<open>
  The body of the loop over the images of a group, on the run's state and the
  group's counter \<open>group_success\<close>. An exception that nothing catches ends the run:
  the result is then \<open>Inl\<close> of the exception and the state it left.
\<close>

definition process_image ::
  "'fs libs \<Rightarrow> string \<Rightarrow> settings \<Rightarrow> sub list \<Rightarrow> string \<times> int \<Rightarrow> 'fs run_state \<times> nat
     \<Rightarrow> (py_error \<times> 'fs run_state) + ('fs run_state \<times> nat)" where
  "process_image lb current_folder cfg subs img acc =
     (case img of (img_filename, frame_number) \<Rightarrow>
      case acc of (st, group_success) \<Rightarrow>
      let st1 = st\<lparr>total_images := total_images st + 1\<rparr>
      in case frame_time_seconds cfg frame_number of
           Inl e \<Rightarrow> Inl (e, st1)
         | Inr frame_time \<Rightarrow>
             (let frame_timedelta_ms = frame_time * 1000
              in case find_sub frame_timedelta_ms subs of
                   None \<Rightarrow>
                     Inr (print_line [NoMatchWarning img_filename frame_number frame_time] st1,
                          group_success)
                 | Some s \<Rightarrow>
                     (case parse_dji_gps_data (sub_text s) of
                        None \<Rightarrow>
                          Inr (print_line [ParseWarning (take 50 (sub_text s)),
                                           NoMatchWarning img_filename frame_number frame_time] st1,
                               group_success)
                      | Some (lat, lon, abs_alt, rel_alt) \<Rightarrow>
                          (let full_image_path = os_path_join current_folder img_filename;
                               st2 = print_line
                                       [Tagging img_filename frame_number lat lon abs_alt rel_alt] st1
                           in case set_gps_location lb (files st2) full_image_path
                                     lat lon abs_alt rel_alt of
                                (evs, fs', ok) \<Rightarrow>
                                  (let st3 = print_line evs (st2\<lparr>files := fs'\<rparr>)
                                   in if ok
                                      then Inr (st3\<lparr>total_success := total_success st3 + 1\<rparr>,
                                                group_success + 1)
                                      else Inr (st3, group_success))))))"

fun process_images ::
  "'fs libs \<Rightarrow> string \<Rightarrow> settings \<Rightarrow> sub list \<Rightarrow> (string \<times> int) list \<Rightarrow> 'fs run_state \<times> nat
     \<Rightarrow> (py_error \<times> 'fs run_state) + ('fs run_state \<times> nat)" where
  "process_images lb current_folder cfg subs [] acc = Inr acc"
| "process_images lb current_folder cfg subs (img # images) acc =
     (case process_image lb current_folder cfg subs img acc of
        Inl e \<Rightarrow> Inl e
      | Inr acc' \<Rightarrow> process_images lb current_folder cfg subs images acc')"

subsection \<open>One group and all groups (lines 189 to 244)\<close>

text \<open>
  A matched group is its prefix, its subtitle file and its images, each image with
  its frame number, in the order of the frame numbers.
\<close>

type_synonym video_group = "string \<times> string \<times> (string \<times> int) list"

definition process_group ::
  "'fs libs \<Rightarrow> string \<Rightarrow> settings \<Rightarrow> video_group \<Rightarrow> 'fs run_state
     \<Rightarrow> (py_error \<times> 'fs run_state) + 'fs run_state" where
  "process_group lb current_folder cfg grp st =
     (case grp of (prefix, srt_file, images) \<Rightarrow>
      let st1 = print_line [ProcessingGroup prefix] st
      in case pysrt_open lb srt_file of
           Inl e \<Rightarrow> Inr (print_line [SrtError srt_file e] st1)
         | Inr subs \<Rightarrow>
             (case process_images lb current_folder cfg subs images
                     (print_line [SrtParsed srt_file (length subs)] st1, 0) of
                Inl e \<Rightarrow> Inl e
              | Inr (st2, group_success) \<Rightarrow>
                  Inr (print_line [GroupSummary prefix group_success (length images)] st2)))"

fun process_groups ::
  "'fs libs \<Rightarrow> string \<Rightarrow> settings \<Rightarrow> video_group list \<Rightarrow> 'fs run_state
     \<Rightarrow> (py_error \<times> 'fs run_state) + 'fs run_state" where
  "process_groups lb current_folder cfg [] st = Inr st"
| "process_groups lb current_folder cfg (grp # groups) st =
     (case process_group lb current_folder cfg grp st of
        Inl e \<Rightarrow> Inl e
      | Inr st' \<Rightarrow> process_groups lb current_folder cfg groups st')"

subsection \<open>The frame rates and the run (lines 150 to 248)\<close>

text \<open>
  What the user enters at a prompt, after \<open>strip\<close>, by what the source does with
  it: the empty string, a string on which \<open>float\<close> raises \<open>ValueError\<close>, or a
  string that \<open>float\<close> turns into a number.
\<close>

datatype fps_entry = Blank | Malformed | Number real

text \<open>Lines 164 to 172.\<close>

definition read_video_fps :: "fps_entry \<Rightarrow> event list \<times> real" where
  "read_video_fps entry =
     (case entry of
        Blank \<Rightarrow> ([], 2997 / 100)
      | Malformed \<Rightarrow> ([InvalidFrameRate], 2997 / 100)
      | Number v \<Rightarrow> ([], v))"

text \<open>Lines 175 to 183.\<close>

definition read_extraction_fps :: "fps_entry \<Rightarrow> event list \<times> real" where
  "read_extraction_fps entry =
     (case entry of
        Blank \<Rightarrow> ([], 5)
      | Malformed \<Rightarrow> ([InvalidExtractionRate], 5)
      | Number v \<Rightarrow> ([], v))"

text \<open>
  \<open>geotag_dji_frames\<close> from line 150 on, for the matched groups that lines 112 to
  148 have built from the directory.
\<close>

definition geotag_dji_frames ::
  "'fs libs \<Rightarrow> string \<Rightarrow> video_group list \<Rightarrow> fps_entry \<Rightarrow> fps_entry \<Rightarrow> 'fs
     \<Rightarrow> (py_error \<times> 'fs run_state) + 'fs run_state" where
  "geotag_dji_frames lb current_folder matched_groups video_fps_input extraction_fps_input fs =
     (let st0 = \<lparr>files = fs, printed = [], total_success = 0, total_images = 0\<rparr>
      in if matched_groups = [] then Inr (print_line [NoMatchingGroups] st0)
         else
          (let st1 = print_line
                       (FoundGroups (length matched_groups)
                        # map (\<lambda>(prefix, srt_file, images).
                                 GroupInfo prefix (length images) srt_file) matched_groups) st0
           in case read_video_fps video_fps_input of (evs_v, v_fps) \<Rightarrow>
              case read_extraction_fps extraction_fps_input of (evs_e, e_fps) \<Rightarrow>
              let cfg = \<lparr>video_fps = v_fps, extraction_fps = e_fps\<rparr>;
                  st2 = print_line
                          (RateSettingsHeader # evs_v @ evs_e @ [VideoFpsInfo v_fps]) st1
              in case py_div v_fps e_fps of
                   Inl e \<Rightarrow> Inl (e, st2)
                 | Inr ratio \<Rightarrow>
                     (case process_groups lb current_folder cfg matched_groups
                             (print_line [ExtractionInfo e_fps ratio] st2) of
                        Inl e \<Rightarrow> Inl e
                      | Inr st3 \<Rightarrow>
                          Inr (print_line
                                 [Complete,
                                  FinalSummary (total_success st3) (total_images st3)
                                    (length matched_groups),
                                  AltitudeNote] st3))))"

subsection \<open>What the output of a run reports\<close>

text \<open>
  Readings of the printed lines, used to state what a run reports. The image a
  line reports as handled: each frame ends in exactly one of the line of a tagging
  attempt (line 230) and the warning that no GPS data was found (line 242).
\<close>

fun frame_of :: "event \<Rightarrow> string list" where
  "frame_of (Tagging img_filename frame_number lat lon abs_alt rel_alt) = [img_filename]"
| "frame_of (NoMatchWarning img_filename frame_number frame_time) = [img_filename]"
| "frame_of _ = []"

definition reported_frames :: "event list \<Rightarrow> string list" where
  "reported_frames evs = concat (map frame_of evs)"

text \<open>
  The lines that log the failure of a frame: the error of the metadata write
  (line 79) and the warning that no GPS data was found (line 242), which follows
  a missing interval and a failed parse alike.
\<close>

fun is_failure_line :: "event \<Rightarrow> bool" where
  "is_failure_line (ExifWriteError file_path e) = True"
| "is_failure_line (NoMatchWarning img_filename frame_number frame_time) = True"
| "is_failure_line _ = False"

definition logged_failures :: "event list \<Rightarrow> nat" where
  "logged_failures evs = length (filter is_failure_line evs)"

text \<open>The summary lines of the groups (line 244): prefix, successes, images.\<close>

fun summary_of :: "event \<Rightarrow> (string \<times> nat \<times> nat) list" where
  "summary_of (GroupSummary prefix group_success n_images) = [(prefix, group_success, n_images)]"
| "summary_of _ = []"

definition group_summaries :: "event list \<Rightarrow> (string \<times> nat \<times> nat) list" where
  "group_summaries evs = concat (map summary_of evs)"

text \<open>
  The images of a group that the run reaches: all of them when the subtitle file
  of the group opens, none when it does not (line 203 skips the group).
\<close>

definition processed_images :: "'fs libs \<Rightarrow> video_group \<Rightarrow> (string \<times> int) list" where
  "processed_images lb grp =
     (case grp of (prefix, srt_file, images) \<Rightarrow>
        (case pysrt_open lb srt_file of Inl e \<Rightarrow> [] | Inr subs \<Rightarrow> images))"

definition summary_heads :: "'fs libs \<Rightarrow> video_group \<Rightarrow> (string \<times> nat) list" where
  "summary_heads lb grp =
     (case grp of (prefix, srt_file, images) \<Rightarrow>
        (case pysrt_open lb srt_file of
           Inl e \<Rightarrow> []
         | Inr subs \<Rightarrow> [(prefix, length images)]))"

section \<open>The interval lookup\<close>

lemma find_sub_None_iff:
  "find_sub t subs = None \<longleftrightarrow> (\<forall>s \<in> set subs. \<not> in_interval t s)"
  by (induction subs) auto

lemma find_sub_Some_iff:
  "find_sub t subs = Some s \<longleftrightarrow>
     (\<exists>pre post. subs = pre @ s # post \<and> in_interval t s
                  \<and> (\<forall>x \<in> set pre. \<not> in_interval t x))"
  (is "_ \<longleftrightarrow> ?R subs")
proof (induction subs)
  case Nil
  then show ?case by simp
next
  case (Cons a subs)
  show ?case
  proof (cases "in_interval t a")
    case True
    have "?R (a # subs) \<longleftrightarrow> a = s"
    proof
      assume "?R (a # subs)"
      then obtain pre post where
        h: "a # subs = pre @ s # post" "\<forall>x \<in> set pre. \<not> in_interval t x"
        by blast
      show "a = s" using h True by (cases pre) auto
    next
      assume "a = s"
      then have "a # subs = [] @ s # subs \<and> in_interval t s
                 \<and> (\<forall>x \<in> set []. \<not> in_interval t x)"
        using True by simp
      then show "?R (a # subs)" by blast
    qed
    then show ?thesis using True by simp
  next
    case False
    have "?R (a # subs) \<longleftrightarrow> ?R subs"
    proof
      assume "?R (a # subs)"
      then obtain pre post where
        h: "a # subs = pre @ s # post" "in_interval t s"
           "\<forall>x \<in> set pre. \<not> in_interval t x"
        by blast
      then obtain pre' where "pre = a # pre'" using False by (cases pre) auto
      then show "?R subs" using h by auto
    next
      assume "?R subs"
      then obtain pre post where
        h: "subs = pre @ s # post" "in_interval t s"
           "\<forall>x \<in> set pre. \<not> in_interval t x"
        by blast
      then have "a # subs = (a # pre) @ s # post \<and> in_interval t s
                 \<and> (\<forall>x \<in> set (a # pre). \<not> in_interval t x)"
        using False by simp
      then show "?R (a # subs)" by blast
    qed
    then show ?thesis using False Cons.IH by simp
  qed
qed

lemma sorted_starts_before_first:
  assumes "sorted (map sub_start_ms subs)" "subs \<noteq> []"
    and "t < of_int (sub_start_ms (hd subs))" "s \<in> set subs"
  shows "\<not> in_interval t s"
proof -
  obtain a rest where subs: "subs = a # rest" using assms(2) by (cases subs) auto
  have "sub_start_ms a \<le> sub_start_ms s"
    using assms(1,4) subs by auto
  then have "(of_int (sub_start_ms a) :: real) \<le> of_int (sub_start_ms s)"
    by simp
  then show ?thesis using assms(3) subs by (simp add: in_interval_def)
qed

lemma sorted_ends_after_last:
  assumes "sorted (map sub_end_ms subs)" "subs \<noteq> []"
    and "of_int (sub_end_ms (last subs)) < t" "s \<in> set subs"
  shows "\<not> in_interval t s"
proof -
  have "sub_end_ms s \<le> sub_end_ms (last subs)"
    using assms(1,2,4)
  proof (induction subs)
    case Nil
    then show ?case by simp
  next
    case (Cons a subs)
    then show ?case by (cases "subs = []") auto
  qed
  then have "(of_int (sub_end_ms s) :: real) \<le> of_int (sub_end_ms (last subs))"
    by simp
  then show ?thesis using assms(3) by (simp add: in_interval_def)
qed

text \<open>
  C1, as the code has it. For every timestamp and every list of intervals in
  ascending order of their starts, the lookup returns the first interval of the
  list that holds the timestamp, both bounds included, and \<open>None\<close> exactly when no
  interval holds it. That is so for a timestamp before the start of the first
  interval and for a timestamp after the end of every interval; a timestamp after
  the end of the last interval gives \<open>None\<close> when the ends ascend too.
\<close>

theorem find_sub_first_containing:
  assumes "sorted (map sub_start_ms subs)"
  shows "(find_sub t subs = None \<longleftrightarrow> (\<forall>s \<in> set subs. \<not> in_interval t s))
       \<and> (\<forall>s. find_sub t subs = Some s \<longleftrightarrow>
              (\<exists>pre post. subs = pre @ s # post
                 \<and> of_int (sub_start_ms s) \<le> t \<and> t \<le> of_int (sub_end_ms s)
                 \<and> (\<forall>x \<in> set pre. \<not> in_interval t x)))
       \<and> (subs \<noteq> [] \<and> t < of_int (sub_start_ms (hd subs)) \<longrightarrow> find_sub t subs = None)
       \<and> ((\<forall>s \<in> set subs. of_int (sub_end_ms s) < t) \<longrightarrow> find_sub t subs = None)
       \<and> (subs \<noteq> [] \<and> sorted (map sub_end_ms subs)
            \<and> of_int (sub_end_ms (last subs)) < t \<longrightarrow> find_sub t subs = None)"
proof (intro conjI allI impI)
  show "find_sub t subs = None \<longleftrightarrow> (\<forall>s \<in> set subs. \<not> in_interval t s)"
    by (rule find_sub_None_iff)
next
  fix s
  show "find_sub t subs = Some s \<longleftrightarrow>
          (\<exists>pre post. subs = pre @ s # post
             \<and> of_int (sub_start_ms s) \<le> t \<and> t \<le> of_int (sub_end_ms s)
             \<and> (\<forall>x \<in> set pre. \<not> in_interval t x))"
    using find_sub_Some_iff [of t subs s] by (simp add: in_interval_def)
next
  assume "subs \<noteq> [] \<and> t < of_int (sub_start_ms (hd subs))"
  then show "find_sub t subs = None"
    using sorted_starts_before_first [OF assms] find_sub_None_iff by blast
next
  assume "\<forall>s \<in> set subs. of_int (sub_end_ms s) < t"
  then have "\<forall>s \<in> set subs. \<not> in_interval t s"
    by (auto simp: in_interval_def)
  then show "find_sub t subs = None" by (simp add: find_sub_None_iff)
next
  assume "subs \<noteq> [] \<and> sorted (map sub_end_ms subs)
            \<and> of_int (sub_end_ms (last subs)) < t"
  then show "find_sub t subs = None"
    using sorted_ends_after_last find_sub_None_iff by blast
qed

theorem find_sub_first_containing_witness:
  "find_sub 1100
     [\<lparr>sub_start_ms = 0, sub_end_ms = 999, sub_text = ''a''\<rparr>,
      \<lparr>sub_start_ms = 1000, sub_end_ms = 1200, sub_text = ''b''\<rparr>,
      \<lparr>sub_start_ms = 1100, sub_end_ms = 1300, sub_text = ''c''\<rparr>]
     = Some \<lparr>sub_start_ms = 1000, sub_end_ms = 1200, sub_text = ''b''\<rparr>
   \<and> find_sub 5000
     [\<lparr>sub_start_ms = 0, sub_end_ms = 999, sub_text = ''a''\<rparr>,
      \<lparr>sub_start_ms = 1000, sub_end_ms = 1200, sub_text = ''b''\<rparr>,
      \<lparr>sub_start_ms = 1100, sub_end_ms = 1300, sub_text = ''c''\<rparr>] = None"
proof -
  let ?subs = "[\<lparr>sub_start_ms = 0, sub_end_ms = 999, sub_text = ''a''\<rparr>,
      \<lparr>sub_start_ms = 1000, sub_end_ms = 1200, sub_text = ''b''\<rparr>,
      \<lparr>sub_start_ms = 1100, sub_end_ms = 1300, sub_text = ''c''\<rparr>]"
  have srt: "sorted (map sub_start_ms ?subs)" by simp
  have ends: "?subs \<noteq> [] \<and> sorted (map sub_end_ms ?subs)
                \<and> of_int (sub_end_ms (last ?subs)) < (5000 :: real)"
    by simp
  have none: "find_sub 5000 ?subs = None"
    using find_sub_first_containing [OF srt, of 5000] ends by blast
  have some: "find_sub 1100 ?subs
                = Some \<lparr>sub_start_ms = 1000, sub_end_ms = 1200, sub_text = ''b''\<rparr>"
    by (simp add: in_interval_def)
  show ?thesis using none some by simp
qed

text \<open>
  C1 as stated fails: the two intervals below ascend by their starts, the
  timestamp 50 lies after the end of the last one, and the lookup still returns
  the first interval, which holds it.
\<close>

theorem find_sub_after_last_end_counterexample:
  "sorted (map sub_start_ms
     [\<lparr>sub_start_ms = 0, sub_end_ms = 100, sub_text = ''a''\<rparr>,
      \<lparr>sub_start_ms = 10, sub_end_ms = 20, sub_text = ''b''\<rparr>])
   \<and> of_int (sub_end_ms (last
       [\<lparr>sub_start_ms = 0, sub_end_ms = 100, sub_text = ''a''\<rparr>,
        \<lparr>sub_start_ms = 10, sub_end_ms = 20, sub_text = ''b''\<rparr>])) < (50 :: real)
   \<and> find_sub 50
       [\<lparr>sub_start_ms = 0, sub_end_ms = 100, sub_text = ''a''\<rparr>,
        \<lparr>sub_start_ms = 10, sub_end_ms = 20, sub_text = ''b''\<rparr>]
     = Some \<lparr>sub_start_ms = 0, sub_end_ms = 100, sub_text = ''a''\<rparr>"
  by (simp add: in_interval_def)

section \<open>The frame timestamp\<close>

lemma process_image_video_fps:
  "process_image lb cf (cfg\<lparr>video_fps := v\<rparr>) subs img acc
     = process_image lb cf cfg subs img acc"
  by (simp add: process_image_def frame_time_seconds_def)

lemma process_images_video_fps:
  "process_images lb cf (cfg\<lparr>video_fps := v\<rparr>) subs images acc
     = process_images lb cf cfg subs images acc"
  by (induction images arbitrary: acc)
     (simp_all add: process_image_video_fps split: sum.splits)

lemma process_group_video_fps:
  "process_group lb cf (cfg\<lparr>video_fps := v\<rparr>) grp st = process_group lb cf cfg grp st"
  unfolding process_group_def process_images_video_fps by (rule refl)

lemma process_groups_video_fps:
  "process_groups lb cf (cfg\<lparr>video_fps := v\<rparr>) groups st
     = process_groups lb cf cfg groups st"
  by (induction groups arbitrary: st)
     (simp_all add: process_group_video_fps split: sum.splits)

text \<open>
  C2. For every frame number \<open>n\<close> and every positive extraction rate, the frame
  timestamp is \<open>(n - 1) / extraction_fps\<close> seconds, and it is 0 for frame 1. The
  source frame rate does not enter: replacing \<open>video_fps\<close> by any value changes
  neither the timestamp nor anything the processing of the groups does.
\<close>

theorem frame_time_seconds_formula:
  "(0 < extraction_fps cfg \<longrightarrow>
      frame_time_seconds cfg n = Inr ((of_int n - 1) / extraction_fps cfg))
   \<and> (0 < extraction_fps cfg \<longrightarrow> frame_time_seconds cfg 1 = Inr 0)
   \<and> frame_time_seconds (cfg\<lparr>video_fps := v\<rparr>) n = frame_time_seconds cfg n
   \<and> process_groups lb cf (cfg\<lparr>video_fps := v\<rparr>) groups st
       = process_groups lb cf cfg groups st"
  by (simp add: frame_time_seconds_def py_div_def process_groups_video_fps)

theorem frame_time_seconds_formula_witness:
  "frame_time_seconds \<lparr>video_fps = 2997 / 100, extraction_fps = 5\<rparr> 6 = Inr 1
   \<and> frame_time_seconds \<lparr>video_fps = 2997 / 100, extraction_fps = 5\<rparr> 1 = Inr 0
   \<and> frame_time_seconds \<lparr>video_fps = 60, extraction_fps = 5\<rparr> 6
       = frame_time_seconds \<lparr>video_fps = 2997 / 100, extraction_fps = 5\<rparr> 6"
proof -
  note f = frame_time_seconds_formula
             [of "\<lparr>video_fps = 2997 / 100, extraction_fps = 5\<rparr>" 6 60]
  have pos: "0 < extraction_fps \<lparr>video_fps = 2997 / 100, extraction_fps = 5\<rparr>"
    by simp
  show ?thesis
    using f [THEN conjunct1] f [THEN conjunct2, THEN conjunct1]
      f [THEN conjunct2, THEN conjunct2, THEN conjunct1] pos
    by simp
qed

section \<open>The telemetry parser\<close>

text \<open>
  C3, as the code has it. \<open>parse_dji_gps_data\<close> returns a sample if and only if
  the patterns of latitude, longitude and absolute altitude all match, the three
  captured values convert to floats and the captured relative altitude, when its
  pattern matches, converts too. The sample holds the three values and the
  relative altitude, which is absent when its pattern does not match. Without a
  match of \<open>abs_alt:\<close>, or with a captured latitude that does not convert, the
  result is \<open>None\<close>. (The function is pure: it reads its argument only.)
\<close>

theorem parse_dji_gps_data_iff:
  "(parse_dji_gps_data txt = Some smp \<longleftrightarrow>
     (\<exists>lat_s lon_s abs_s lat lon abs_alt.
        re_search ''[latitude:'' True txt = Some lat_s \<and> py_float lat_s = Inr lat
      \<and> re_search ''[longitude:'' True txt = Some lon_s \<and> py_float lon_s = Inr lon
      \<and> re_search ''abs_alt:'' True txt = Some abs_s \<and> py_float abs_s = Inr abs_alt
      \<and> (case re_search ''[rel_alt:'' False txt of
            None \<Rightarrow> smp = (lat, lon, abs_alt, None)
          | Some rel_s \<Rightarrow>
              \<exists>rel_alt. py_float rel_s = Inr rel_alt
                         \<and> smp = (lat, lon, abs_alt, Some rel_alt))))
   \<and> (re_search ''abs_alt:'' True txt = None \<longrightarrow> parse_dji_gps_data txt = None)
   \<and> (\<forall>lat_s e. re_search ''[latitude:'' True txt = Some lat_s \<and> py_float lat_s = Inl e
         \<longrightarrow> parse_dji_gps_data txt = None)"
  unfolding parse_dji_gps_data_def Let_def
  by (auto split: option.splits sum.splits)

theorem parse_dji_gps_data_iff_witness:
  "parse_dji_gps_data ''[latitude: 40.123][longitude: -74.456][rel_alt: 10.0 abs_alt: 50.25''
     = None
   \<and> parse_dji_gps_data ''[latitude: 4a.5][latitude: 4..5][longitude: 2.5][abs_alt: 3.5]''
     = None"
proof -
  have a: "re_search ''abs_alt:'' True
             ''[latitude: 40.123][longitude: -74.456][rel_alt: 10.0 abs_alt: 50.25'' = None"
    by code_simp
  have b: "re_search ''[latitude:'' True
             ''[latitude: 4a.5][latitude: 4..5][longitude: 2.5][abs_alt: 3.5]'' = Some ''4..5''
           \<and> py_float ''4..5'' = Inl ValueError"
    by code_simp
  note t1 = parse_dji_gps_data_iff
    [of "''[latitude: 40.123][longitude: -74.456][rel_alt: 10.0 abs_alt: 50.25''",
     THEN conjunct2, THEN conjunct1]
  note t2 = parse_dji_gps_data_iff
    [of "''[latitude: 4a.5][latitude: 4..5][longitude: 2.5][abs_alt: 3.5]''",
     THEN conjunct2, THEN conjunct2]
  show ?thesis using t1 a t2 b by blast
qed

text \<open>
  C3 as stated fails: in the text below latitude, longitude and absolute altitude
  are all present and convert to floats, and the result is still \<open>None\<close>, because
  the pattern of the relative altitude captures \<open>-\<close>, which does not convert.
\<close>

theorem parse_required_fields_valid_counterexample:
  "re_search ''[latitude:'' True
      ''[latitude: 1.5][longitude: 2.5][rel_alt: - abs_alt: 3.5]'' = Some ''1.5''
   \<and> py_float ''1.5'' = Inr (3 / 2)
   \<and> re_search ''[longitude:'' True
      ''[latitude: 1.5][longitude: 2.5][rel_alt: - abs_alt: 3.5]'' = Some ''2.5''
   \<and> py_float ''2.5'' = Inr (5 / 2)
   \<and> re_search ''abs_alt:'' True
      ''[latitude: 1.5][longitude: 2.5][rel_alt: - abs_alt: 3.5]'' = Some ''3.5''
   \<and> py_float ''3.5'' = Inr (7 / 2)
   \<and> parse_dji_gps_data ''[latitude: 1.5][longitude: 2.5][rel_alt: - abs_alt: 3.5]'' = None"
  by code_simp

text \<open>
  C10. There is a text with valid latitude, longitude and absolute altitude whose
  \<open>rel_alt\<close> pattern captures \<open>1.2.3\<close>, which is no float: the conversion raises
  \<open>ValueError\<close> and \<open>parse_dji_gps_data\<close> returns \<open>None\<close> for the whole record.
\<close>

theorem parse_malformed_rel_alt_suppresses_sample:
  "re_search ''[latitude:'' True
      ''[latitude: 40.123][longitude: -74.456][rel_alt: 1.2.3 abs_alt: 50.25]''
     = Some ''40.123''
   \<and> py_float ''40.123'' = Inr (40123 / 1000)
   \<and> re_search ''[longitude:'' True
      ''[latitude: 40.123][longitude: -74.456][rel_alt: 1.2.3 abs_alt: 50.25]''
     = Some ''-74.456''
   \<and> py_float ''-74.456'' = Inr (- 74456 / 1000)
   \<and> re_search ''abs_alt:'' True
      ''[latitude: 40.123][longitude: -74.456][rel_alt: 1.2.3 abs_alt: 50.25]''
     = Some ''50.25''
   \<and> py_float ''50.25'' = Inr (5025 / 100)
   \<and> re_search ''[rel_alt:'' False
      ''[latitude: 40.123][longitude: -74.456][rel_alt: 1.2.3 abs_alt: 50.25]''
     = Some ''1.2.3''
   \<and> py_float ''1.2.3'' = Inl ValueError
   \<and> parse_dji_gps_data
        ''[latitude: 40.123][longitude: -74.456][rel_alt: 1.2.3 abs_alt: 50.25]'' = None"
  by code_simp

theorem parse_malformed_rel_alt_suppresses_sample_witness:
  "py_float ''1.2.3'' = Inl ValueError
   \<and> parse_dji_gps_data
        ''[latitude: 40.123][longitude: -74.456][rel_alt: 1.2.3 abs_alt: 50.25]'' = None"
  using parse_malformed_rel_alt_suppresses_sample by blast

section \<open>The coordinate encoder\<close>

lemma py_int_nonneg: "0 \<le> x \<Longrightarrow> py_int x = \<lfloor>x\<rfloor>"
  by (simp add: py_int_def)

lemma py_int_of_int: "py_int (of_int k) = k"
  by (simp add: py_int_def)

lemma py_int_error: "\<bar>of_int (py_int x) - x\<bar> < 1"
  unfolding py_int_def by (cases "0 \<le> x") (simp_all, linarith+)

lemma round_half_even_error: "\<bar>of_int (round_half_even x) - x\<bar> \<le> 1 / 2"
proof -
  define f where "f = \<lfloor>x\<rfloor>"
  have b: "of_int f \<le> x" "x < of_int f + 1" unfolding f_def by linarith+
  consider "x - of_int f < 1 / 2" | "1 / 2 < x - of_int f" | "x - of_int f = 1 / 2"
    by linarith
  then show ?thesis
  proof cases
    case 1
    then have "round_half_even x = f" by (simp add: round_half_even_def f_def)
    then show ?thesis using 1 b by simp
  next
    case 2
    then have "round_half_even x = f + 1" by (simp add: round_half_even_def f_def)
    then show ?thesis using 2 b by simp
  next
    case 3
    then have "round_half_even x = f \<or> round_half_even x = f + 1"
      by (simp add: round_half_even_def f_def Let_def)
    then show ?thesis using 3 by auto
  qed
qed

lemma py_round_scaled: "py_round x n * 10 ^ n = of_int (round_half_even (x * 10 ^ n))"
  by (simp add: py_round_def)

lemma py_round_error: "\<bar>py_round x n - x\<bar> \<le> (1 / 2) / 10 ^ n"
proof -
  have "py_round x n - x = (of_int (round_half_even (x * 10 ^ n)) - x * 10 ^ n) / 10 ^ n"
    by (simp add: py_round_def field_simps)
  then have "\<bar>py_round x n - x\<bar>
               = \<bar>of_int (round_half_even (x * 10 ^ n)) - x * 10 ^ n\<bar> / 10 ^ n"
    by (simp add: abs_divide)
  also have "\<dots> \<le> (1 / 2) / 10 ^ n"
    by (rule divide_right_mono [OF round_half_even_error]) simp
  finally show ?thesis .
qed

lemma round_half_even_nonneg: "0 \<le> x \<Longrightarrow> 0 \<le> round_half_even x"
  unfolding round_half_even_def Let_def by (auto simp: zero_le_floor)

lemma to_rational_py_round:
  "to_rational (py_round x 5) 100000 = (round_half_even (x * 100000), 100000)"
proof -
  have "py_round x 5 * 100000 = of_int (round_half_even (x * 100000))"
    using py_round_scaled [of x 5] by simp
  then show ?thesis by (simp add: to_rational_def py_int_of_int)
qed

lemma rational_value_py_round:
  "rational_value (to_rational (py_round x 5) 100000) = py_round x 5"
  unfolding to_rational_py_round by (simp add: rational_value_def py_round_def)

text \<open>The parts of \<open>to_deg\<close>, with \<open>int\<close> on the non-negative magnitude as a floor.\<close>

lemma to_deg_parts:
  "to_deg v loc =
     (\<lfloor>\<bar>v\<bar>\<rfloor>,
      \<lfloor>(\<bar>v\<bar> - of_int \<lfloor>\<bar>v\<bar>\<rfloor>) * 60\<rfloor>,
      py_round (((\<bar>v\<bar> - of_int \<lfloor>\<bar>v\<bar>\<rfloor>) * 60
                  - of_int \<lfloor>(\<bar>v\<bar> - of_int \<lfloor>\<bar>v\<bar>\<rfloor>) * 60\<rfloor>) * 60) 5,
      if v < 0 then snd loc else if 0 < v then fst loc else [])"
proof -
  have a: "py_int \<bar>v\<bar> = \<lfloor>\<bar>v\<bar>\<rfloor>" by (simp add: py_int_nonneg)
  have "0 \<le> (\<bar>v\<bar> - of_int \<lfloor>\<bar>v\<bar>\<rfloor>) * 60" by simp
  then have b: "py_int ((\<bar>v\<bar> - of_int \<lfloor>\<bar>v\<bar>\<rfloor>) * 60) = \<lfloor>(\<bar>v\<bar> - of_int \<lfloor>\<bar>v\<bar>\<rfloor>) * 60\<rfloor>"
    by (rule py_int_nonneg)
  show ?thesis unfolding to_deg_def Let_def a b by simp
qed

lemma dms_reconstruction:
  fixes a :: real
  defines "d \<equiv> \<lfloor>a\<rfloor>"
  defines "m \<equiv> \<lfloor>(a - of_int d) * 60\<rfloor>"
  defines "s \<equiv> ((a - of_int d) * 60 - of_int m) * 60"
  shows "\<bar>of_int d + of_int m / 60 + py_round s 5 / 3600 - a\<bar> \<le> 1 / 100000"
proof -
  have "of_int d + of_int m / 60 + s / 3600 = a"
    by (simp add: s_def field_simps)
  then have e: "of_int d + of_int m / 60 + py_round s 5 / 3600 - a
                  = (py_round s 5 - s) / 3600"
    by (simp add: field_simps)
  have "\<bar>py_round s 5 - s\<bar> \<le> 1 / 200000"
    using py_round_error [of s 5] by simp
  then have "\<bar>py_round s 5 - s\<bar> / 3600 \<le> 1 / 100000" by simp
  then show ?thesis unfolding e by (simp add: abs_divide)
qed








lemma decode_coordinate_dms:
  "decode_coordinate n r ((d, 1), (m, 1), to_rational (py_round s 5) 100000)
     = (if r = n then - 1 else 1) * (of_int d + of_int m / 60 + py_round s 5 / 3600)"
  unfolding decode_coordinate_def prod.case rational_value_py_round
  by (simp add: rational_value_def)

lemma signed_magnitude_error:
  fixes v mag e :: real
  assumes "\<bar>mag - \<bar>v\<bar>\<bar> \<le> e"
  shows "\<bar>(if v < 0 then - 1 else 1) * mag - v\<bar> \<le> e"
  using assms by (cases "v < 0") (simp_all add: abs_if split: if_splits)

lemma coordinate_round_trip:
  assumes "n \<noteq> p" and "n \<noteq> []"
  shows "\<bar>decode_coordinate n (snd (snd (snd (to_deg v (p, n)))))
            ((fst (to_deg v (p, n)), 1), (fst (snd (to_deg v (p, n))), 1),
             to_rational (fst (snd (snd (to_deg v (p, n))))) 100000) - v\<bar>
         \<le> 1 / 100000"
proof -
  define d where "d = \<lfloor>\<bar>v\<bar>\<rfloor>"
  define m where "m = \<lfloor>(\<bar>v\<bar> - of_int d) * 60\<rfloor>"
  define s where "s = ((\<bar>v\<bar> - of_int d) * 60 - of_int m) * 60"
  define r where "r = (if v < 0 then n else if 0 < v then p else [])"
  define mag where "mag = of_int d + of_int m / 60 + py_round s 5 / 3600"
  have td: "to_deg v (p, n) = (d, m, py_round s 5, r)"
    unfolding to_deg_parts d_def m_def s_def r_def by simp
  have e: "\<bar>mag - \<bar>v\<bar>\<bar> \<le> 1 / 100000"
    unfolding mag_def s_def m_def d_def by (rule dms_reconstruction)
  have sg: "(r = n) = (v < 0)"
    unfolding r_def using assms by auto
  have "decode_coordinate n r ((d, 1), (m, 1), to_rational (py_round s 5) 100000)
          = (if v < 0 then - 1 else 1) * mag"
    unfolding decode_coordinate_dms sg mag_def by (rule refl)
  then show ?thesis
    unfolding td using signed_magnitude_error [OF e] by simp
qed

text \<open>
  C6. For every latitude, longitude and altitude, so for every sample with
  latitude in [-90, 90] and longitude in [-180, 180]: the tag built from them,
  read back, gives the latitude and the longitude within 1/100000 of a degree and
  the altitude within 1/100 (strictly). The altitude is a rational over 100 and
  its reference is 0, above sea level.
\<close>

theorem gps_tag_round_trip:
  "\<bar>decode_latitude (make_gps_ifd lat lon abs_alt) - lat\<bar> \<le> 1 / 100000
   \<and> \<bar>decode_longitude (make_gps_ifd lat lon abs_alt) - lon\<bar> \<le> 1 / 100000
   \<and> \<bar>decode_altitude (make_gps_ifd lat lon abs_alt) - abs_alt\<bar> < 1 / 100
   \<and> snd (GPSAltitude (make_gps_ifd lat lon abs_alt)) = 100
   \<and> GPSAltitudeRef (make_gps_ifd lat lon abs_alt) = 0"
proof -
  have la: "\<bar>decode_latitude (make_gps_ifd lat lon abs_alt) - lat\<bar> \<le> 1 / 100000"
    using coordinate_round_trip [of "''S''" "''N''" lat]
    by (simp add: decode_latitude_def make_gps_ifd_def case_prod_beta)
  have lo: "\<bar>decode_longitude (make_gps_ifd lat lon abs_alt) - lon\<bar> \<le> 1 / 100000"
    using coordinate_round_trip [of "''W''" "''E''" lon]
    by (simp add: decode_longitude_def make_gps_ifd_def case_prod_beta)
  have ga: "GPSAltitude (make_gps_ifd lat lon abs_alt) = to_rational abs_alt 100"
    by (simp add: make_gps_ifd_def case_prod_beta)
  have gr: "GPSAltitudeRef (make_gps_ifd lat lon abs_alt) = 0"
    by (simp add: make_gps_ifd_def case_prod_beta)
  have "\<bar>of_int (py_int (abs_alt * 100)) - abs_alt * 100\<bar> < 1" by (rule py_int_error)
  then have "\<bar>of_int (py_int (abs_alt * 100)) / 100 - abs_alt\<bar> < 1 / 100"
    by (simp add: abs_if split: if_splits)
  then have al: "\<bar>decode_altitude (make_gps_ifd lat lon abs_alt) - abs_alt\<bar> < 1 / 100"
    unfolding decode_altitude_def ga gr by (simp add: to_rational_def rational_value_def)
  have sn: "snd (GPSAltitude (make_gps_ifd lat lon abs_alt)) = 100"
    unfolding ga by (simp add: to_rational_def)
  show ?thesis by (intro conjI la lo al sn gr)
qed

theorem gps_tag_round_trip_witness:
  "\<bar>decode_latitude (make_gps_ifd (40123 / 1000) (- (74456 / 1000)) (5025 / 100))
      - 40123 / 1000\<bar> \<le> 1 / 100000
   \<and> \<bar>decode_longitude (make_gps_ifd (40123 / 1000) (- (74456 / 1000)) (5025 / 100))
      - (- (74456 / 1000))\<bar> \<le> 1 / 100000
   \<and> \<bar>decode_altitude (make_gps_ifd (40123 / 1000) (- (74456 / 1000)) (5025 / 100))
      - 5025 / 100\<bar> < 1 / 100"
  using gps_tag_round_trip [of "40123 / 1000" "- (74456 / 1000)" "5025 / 100"]
  by blast

section \<open>The processing of a batch\<close>

lemma reported_frames_append [simp]:
  "reported_frames (xs @ ys) = reported_frames xs @ reported_frames ys"
  by (simp add: reported_frames_def)

lemma logged_failures_append [simp]:
  "logged_failures (xs @ ys) = logged_failures xs + logged_failures ys"
  by (simp add: logged_failures_def)

lemma group_summaries_append [simp]:
  "group_summaries (xs @ ys) = group_summaries xs @ group_summaries ys"
  by (simp add: group_summaries_def)

lemma set_gps_location_result:
  "\<exists>evs fs' ok. set_gps_location lb fs file_path lat lon abs_alt rel_alt = (evs, fs', ok)
      \<and> (if ok then evs = [] else \<exists>e. evs = [ExifWriteError file_path e])"
  by (auto simp: set_gps_location_def split: sum.splits option.splits prod.splits)

text \<open>
  One frame: whatever happens to it, the loop body returns normally, counts the
  frame, reports it once, and either counts a success or logs one failure.
\<close>

lemma process_image_step:
  assumes "extraction_fps cfg \<noteq> 0"
  shows "\<exists>st' g' new.
           process_image lb cf cfg subs (f, n) (st, g) = Inr (st', g')
         \<and> printed st' = printed st @ new
         \<and> total_images st' = total_images st + 1
         \<and> reported_frames new = [f]
         \<and> group_summaries new = []
         \<and> logged_failures new + (g' - g) = 1
         \<and> g \<le> g'
         \<and> total_success st' = total_success st + (g' - g)"
proof -
  obtain t where ft: "frame_time_seconds cfg n = Inr t"
    using assms by (simp add: frame_time_seconds_def py_div_def)
  show ?thesis
  proof (cases "find_sub (t * 1000) subs")
    case None
    then show ?thesis
      by (simp add: process_image_def ft print_line_def reported_frames_def
            group_summaries_def logged_failures_def)
  next
    case (Some s)
    show ?thesis
    proof (cases "parse_dji_gps_data (sub_text s)")
      case None
      then show ?thesis
        using Some
        by (simp add: process_image_def ft print_line_def reported_frames_def
              group_summaries_def logged_failures_def)
    next
      case (Some smp)
      obtain lat lon abs_alt rel_alt where smp: "smp = (lat, lon, abs_alt, rel_alt)"
        by (cases smp) auto
      obtain evs fs' ok where
        w: "set_gps_location lb (files st) (os_path_join cf f) lat lon abs_alt rel_alt
              = (evs, fs', ok)"
        and ev: "if ok then evs = [] else \<exists>e. evs = [ExifWriteError (os_path_join cf f) e]"
        using set_gps_location_result
                [of lb "files st" "os_path_join cf f" lat lon abs_alt rel_alt]
        by blast
      show ?thesis
      proof (cases ok)
        case True
        then show ?thesis
          using \<open>find_sub (t * 1000) subs = Some s\<close> Some smp w ev
          by (simp add: process_image_def ft print_line_def reported_frames_def
                group_summaries_def logged_failures_def)
      next
        case False
        then obtain e where "evs = [ExifWriteError (os_path_join cf f) e]"
          using ev by auto
        then show ?thesis
          using \<open>find_sub (t * 1000) subs = Some s\<close> Some smp w False
          by (simp add: process_image_def ft print_line_def reported_frames_def
                group_summaries_def logged_failures_def)
      qed
    qed
  qed
qed

lemma process_images_all:
  assumes "extraction_fps cfg \<noteq> 0"
  shows "\<exists>st' g' new.
           process_images lb cf cfg subs images (st, g) = Inr (st', g')
         \<and> printed st' = printed st @ new
         \<and> total_images st' = total_images st + length images
         \<and> reported_frames new = map fst images
         \<and> group_summaries new = []
         \<and> logged_failures new + (g' - g) = length images
         \<and> g \<le> g'
         \<and> total_success st' = total_success st + (g' - g)"
proof (induction images arbitrary: st g)
  case Nil
  then show ?case by (simp add: reported_frames_def group_summaries_def logged_failures_def)
next
  case (Cons img images)
  obtain f n where img: "img = (f, n)" by (cases img) auto
  obtain st1 g1 new1 where
    s1: "process_image lb cf cfg subs (f, n) (st, g) = Inr (st1, g1)"
    and p1: "printed st1 = printed st @ new1"
    and t1: "total_images st1 = total_images st + 1"
    and r1: "reported_frames new1 = [f]"
    and u1: "group_summaries new1 = []"
    and l1: "logged_failures new1 + (g1 - g) = 1"
    and m1: "g \<le> g1"
    and c1: "total_success st1 = total_success st + (g1 - g)"
    using process_image_step [OF assms] by blast
  obtain st2 g2 new2 where
    s2: "process_images lb cf cfg subs images (st1, g1) = Inr (st2, g2)"
    and p2: "printed st2 = printed st1 @ new2"
    and t2: "total_images st2 = total_images st1 + length images"
    and r2: "reported_frames new2 = map fst images"
    and u2: "group_summaries new2 = []"
    and l2: "logged_failures new2 + (g2 - g1) = length images"
    and m2: "g1 \<le> g2"
    and c2: "total_success st2 = total_success st1 + (g2 - g1)"
    using Cons.IH by blast
  have run: "process_images lb cf cfg subs (img # images) (st, g) = Inr (st2, g2)"
    by (simp add: img s1 s2)
  have "printed st2 = printed st @ (new1 @ new2)" by (simp add: p1 p2)
  moreover have "total_images st2 = total_images st + length (img # images)"
    by (simp add: t1 t2)
  moreover have "reported_frames (new1 @ new2) = map fst (img # images)"
    by (simp add: r1 r2 img)
  moreover have "group_summaries (new1 @ new2) = []" by (simp add: u1 u2)
  moreover have "logged_failures (new1 @ new2) + (g2 - g) = length (img # images)"
    using l1 l2 m1 m2 by simp
  moreover have "g \<le> g2" using m1 m2 by simp
  moreover have "total_success st2 = total_success st + (g2 - g)"
    using c1 c2 m1 m2 by simp
  ultimately show ?case using run by blast
qed

lemma reported_frames_simps [simp]:
  "reported_frames [] = []"
  "reported_frames (e # es) = frame_of e @ reported_frames es"
  by (simp_all add: reported_frames_def)

lemma logged_failures_simps [simp]:
  "logged_failures [] = 0"
  "logged_failures (e # es) = (if is_failure_line e then 1 else 0) + logged_failures es"
  by (simp_all add: logged_failures_def)

lemma group_summaries_simps [simp]:
  "group_summaries [] = []"
  "group_summaries (e # es) = summary_of e @ group_summaries es"
  by (simp_all add: group_summaries_def)

lemma process_group_all:
  assumes "extraction_fps cfg \<noteq> 0"
  shows "\<exists>st' new.
           process_group lb cf cfg grp st = Inr st'
         \<and> printed st' = printed st @ new
         \<and> total_images st' = total_images st + length (processed_images lb grp)
         \<and> reported_frames new = map fst (processed_images lb grp)
         \<and> logged_failures new + (total_success st' - total_success st)
             = length (processed_images lb grp)
         \<and> total_success st \<le> total_success st'
         \<and> map (\<lambda>s. (fst s, snd (snd s))) (group_summaries new) = summary_heads lb grp
         \<and> sum_list (map (\<lambda>s. fst (snd s)) (group_summaries new))
             = total_success st' - total_success st"
proof -
  obtain prefix srt_file images where grp: "grp = (prefix, srt_file, images)"
    by (cases grp) auto
  show ?thesis
  proof (cases "pysrt_open lb srt_file")
    case (Inl e)
    then show ?thesis
      by (simp add: grp process_group_def processed_images_def summary_heads_def
            print_line_def)
  next
    case (Inr subs)
    let ?st0 = "print_line [SrtParsed srt_file (length subs)]
                  (print_line [ProcessingGroup prefix] st)"
    obtain st2 g2 new2 where
      s2: "process_images lb cf cfg subs images (?st0, 0) = Inr (st2, g2)"
      and p2: "printed st2 = printed ?st0 @ new2"
      and t2: "total_images st2 = total_images ?st0 + length images"
      and r2: "reported_frames new2 = map fst images"
      and u2: "group_summaries new2 = []"
      and l2: "logged_failures new2 + (g2 - 0) = length images"
      and c2: "total_success st2 = total_success ?st0 + (g2 - 0)"
      using process_images_all [OF assms, of lb cf subs images ?st0 0] by blast
    let ?new = "[ProcessingGroup prefix, SrtParsed srt_file (length subs)] @ new2
                  @ [GroupSummary prefix g2 (length images)]"
    let ?st' = "print_line [GroupSummary prefix g2 (length images)] st2"
    have run: "process_group lb cf cfg grp st = Inr ?st'"
      by (simp add: grp process_group_def Inr s2)
    have pr: "printed ?st' = printed st @ ?new"
      by (simp add: print_line_def p2)
    have ti: "total_images ?st' = total_images st + length (processed_images lb grp)"
      by (simp add: print_line_def t2 grp processed_images_def Inr)
    have ts: "total_success ?st' = total_success st + g2"
      using c2 by (simp add: print_line_def)
    have rf: "reported_frames ?new = map fst (processed_images lb grp)"
      by (simp add: r2 grp processed_images_def Inr)
    have lf: "logged_failures ?new + (total_success ?st' - total_success st)
                = length (processed_images lb grp)"
      using l2 by (simp add: ts grp processed_images_def Inr)
    have gs: "group_summaries ?new = [(prefix, g2, length images)]"
      by (simp add: u2)
    have hd: "map (\<lambda>s. (fst s, snd (snd s))) (group_summaries ?new) = summary_heads lb grp"
      unfolding gs by (simp add: grp summary_heads_def Inr)
    have sm: "sum_list (map (\<lambda>s. fst (snd s)) (group_summaries ?new))
                = total_success ?st' - total_success st"
      unfolding gs by (simp add: ts)
    have le: "total_success st \<le> total_success ?st'" by (simp add: ts)
    show ?thesis using run pr ti rf lf le hd sm by blast
  qed
qed

lemma process_groups_all:
  assumes "extraction_fps cfg \<noteq> 0"
  shows "\<exists>st' new.
           process_groups lb cf cfg groups st = Inr st'
         \<and> printed st' = printed st @ new
         \<and> total_images st'
             = total_images st + length (concat (map (processed_images lb) groups))
         \<and> reported_frames new = map fst (concat (map (processed_images lb) groups))
         \<and> logged_failures new + (total_success st' - total_success st)
             = length (concat (map (processed_images lb) groups))
         \<and> total_success st \<le> total_success st'
         \<and> map (\<lambda>s. (fst s, snd (snd s))) (group_summaries new)
             = concat (map (summary_heads lb) groups)
         \<and> sum_list (map (\<lambda>s. fst (snd s)) (group_summaries new))
             = total_success st' - total_success st"
proof (induction groups arbitrary: st)
  case Nil
  then show ?case
    by simp
next
  case (Cons grp groups)
  obtain st1 new1 where
    s1: "process_group lb cf cfg grp st = Inr st1"
    and p1: "printed st1 = printed st @ new1"
    and t1: "total_images st1 = total_images st + length (processed_images lb grp)"
    and r1: "reported_frames new1 = map fst (processed_images lb grp)"
    and l1: "logged_failures new1 + (total_success st1 - total_success st)
               = length (processed_images lb grp)"
    and m1: "total_success st \<le> total_success st1"
    and h1: "map (\<lambda>s. (fst s, snd (snd s))) (group_summaries new1) = summary_heads lb grp"
    and u1: "sum_list (map (\<lambda>s. fst (snd s)) (group_summaries new1))
               = total_success st1 - total_success st"
    using process_group_all [OF assms] by blast
  obtain st2 new2 where
    s2: "process_groups lb cf cfg groups st1 = Inr st2"
    and p2: "printed st2 = printed st1 @ new2"
    and t2: "total_images st2
               = total_images st1 + length (concat (map (processed_images lb) groups))"
    and r2: "reported_frames new2 = map fst (concat (map (processed_images lb) groups))"
    and l2: "logged_failures new2 + (total_success st2 - total_success st1)
               = length (concat (map (processed_images lb) groups))"
    and m2: "total_success st1 \<le> total_success st2"
    and h2: "map (\<lambda>s. (fst s, snd (snd s))) (group_summaries new2)
               = concat (map (summary_heads lb) groups)"
    and u2: "sum_list (map (\<lambda>s. fst (snd s)) (group_summaries new2))
               = total_success st2 - total_success st1"
    using Cons.IH by blast
  have run: "process_groups lb cf cfg (grp # groups) st = Inr st2"
    by (simp add: s1 s2)
  have "printed st2 = printed st @ (new1 @ new2)" by (simp add: p1 p2)
  moreover have "total_images st2
      = total_images st + length (concat (map (processed_images lb) (grp # groups)))"
    by (simp add: t1 t2)
  moreover have "reported_frames (new1 @ new2)
      = map fst (concat (map (processed_images lb) (grp # groups)))"
    by (simp add: r1 r2)
  moreover have "logged_failures (new1 @ new2) + (total_success st2 - total_success st)
      = length (concat (map (processed_images lb) (grp # groups)))"
    using l1 l2 m1 m2 by simp
  moreover have "total_success st \<le> total_success st2" using m1 m2 by simp
  moreover have "map (\<lambda>s. (fst s, snd (snd s))) (group_summaries (new1 @ new2))
      = concat (map (summary_heads lb) (grp # groups))"
    by (simp add: h1 h2)
  moreover have "sum_list (map (\<lambda>s. fst (snd s)) (group_summaries (new1 @ new2)))
      = total_success st2 - total_success st"
    using u1 u2 m1 m2 by simp
  ultimately show ?case using run by blast
qed

lemma group_info_lines:
  "reported_frames (map (\<lambda>(prefix, srt_file, images).
                           GroupInfo prefix (length images) srt_file) groups) = []
   \<and> logged_failures (map (\<lambda>(prefix, srt_file, images).
                           GroupInfo prefix (length images) srt_file) groups) = 0
   \<and> group_summaries (map (\<lambda>(prefix, srt_file, images).
                           GroupInfo prefix (length images) srt_file) groups) = []"
  by (induction groups) (auto split: prod.splits)

lemma read_video_fps_lines:
  "reported_frames (fst (read_video_fps entry)) = []
   \<and> logged_failures (fst (read_video_fps entry)) = 0
   \<and> group_summaries (fst (read_video_fps entry)) = []"
  by (cases entry) (simp_all add: read_video_fps_def)

lemma read_extraction_fps_lines:
  "reported_frames (fst (read_extraction_fps entry)) = []
   \<and> logged_failures (fst (read_extraction_fps entry)) = 0
   \<and> group_summaries (fst (read_extraction_fps entry)) = []"
  by (cases entry) (simp_all add: read_extraction_fps_def)

text \<open>
  The whole run, for a non-zero extraction rate: it ends normally, and its state
  and its output account for every image of every group whose subtitle file opens.
\<close>

lemma geotag_dji_frames_all:
  assumes "matched_groups \<noteq> []" and "snd (read_extraction_fps extraction_fps_input) \<noteq> 0"
  shows "\<exists>st.
           geotag_dji_frames lb cf matched_groups video_fps_input extraction_fps_input fs
             = Inr st
         \<and> total_images st = length (concat (map (processed_images lb) matched_groups))
         \<and> reported_frames (printed st)
             = map fst (concat (map (processed_images lb) matched_groups))
         \<and> logged_failures (printed st) + total_success st = total_images st
         \<and> map (\<lambda>s. (fst s, snd (snd s))) (group_summaries (printed st))
             = concat (map (summary_heads lb) matched_groups)
         \<and> sum_list (map (\<lambda>s. fst (snd s)) (group_summaries (printed st)))
             = total_success st
         \<and> (\<exists>pre. printed st
               = pre @ [Complete,
                        FinalSummary (total_success st) (total_images st)
                          (length matched_groups),
                        AltitudeNote])"
proof -
  obtain evs_v v_fps where rv: "read_video_fps video_fps_input = (evs_v, v_fps)"
    by (cases "read_video_fps video_fps_input") auto
  obtain evs_e e_fps where re: "read_extraction_fps extraction_fps_input = (evs_e, e_fps)"
    by (cases "read_extraction_fps extraction_fps_input") auto
  have e0: "e_fps \<noteq> 0" using assms(2) re by simp
  let ?cfg = "\<lparr>video_fps = v_fps, extraction_fps = e_fps\<rparr>"
  define head where
    "head = (FoundGroups (length matched_groups)
              # map (\<lambda>(prefix, srt_file, images).
                       GroupInfo prefix (length images) srt_file) matched_groups)
            @ (RateSettingsHeader # evs_v @ evs_e @ [VideoFpsInfo v_fps])
            @ [ExtractionInfo e_fps (v_fps / e_fps)]"
  let ?st3 = "\<lparr>files = fs, printed = head, total_success = 0, total_images = 0\<rparr>"
  have hv: "reported_frames evs_v = [] \<and> logged_failures evs_v = 0
            \<and> group_summaries evs_v = []"
    using read_video_fps_lines [of video_fps_input] rv by simp
  have he: "reported_frames evs_e = [] \<and> logged_failures evs_e = 0
            \<and> group_summaries evs_e = []"
    using read_extraction_fps_lines [of extraction_fps_input] re by simp
  have hr: "reported_frames head = []"
    unfolding head_def using hv he group_info_lines [of matched_groups] by simp
  have hl: "logged_failures head = 0"
    unfolding head_def using hv he group_info_lines [of matched_groups] by simp
  have hg: "group_summaries head = []"
    unfolding head_def using hv he group_info_lines [of matched_groups] by simp
  have cfg0: "extraction_fps ?cfg \<noteq> 0" using e0 by simp
  obtain st4 new where
    s4: "process_groups lb cf ?cfg matched_groups ?st3 = Inr st4"
    and p4: "printed st4 = printed ?st3 @ new"
    and t4: "total_images st4
               = total_images ?st3 + length (concat (map (processed_images lb) matched_groups))"
    and r4: "reported_frames new = map fst (concat (map (processed_images lb) matched_groups))"
    and l4: "logged_failures new + (total_success st4 - total_success ?st3)
               = length (concat (map (processed_images lb) matched_groups))"
    and h4: "map (\<lambda>s. (fst s, snd (snd s))) (group_summaries new)
               = concat (map (summary_heads lb) matched_groups)"
    and u4: "sum_list (map (\<lambda>s. fst (snd s)) (group_summaries new))
               = total_success st4 - total_success ?st3"
    using process_groups_all [OF cfg0, of lb cf matched_groups ?st3] by blast
  define tail where
    "tail = [Complete,
             FinalSummary (total_success st4) (total_images st4) (length matched_groups),
             AltitudeNote]"
  have tr: "reported_frames tail = []" "logged_failures tail = 0" "group_summaries tail = []"
    unfolding tail_def by simp_all
  let ?st = "print_line tail st4"
  have run: "geotag_dji_frames lb cf matched_groups video_fps_input extraction_fps_input fs
               = Inr ?st"
    using assms(1) e0 s4
    by (simp add: geotag_dji_frames_def rv re py_div_def print_line_def head_def tail_def)
  have pr: "printed ?st = head @ new @ tail"
    using p4 by (simp add: print_line_def)
  have ts: "total_success ?st = total_success st4" by (simp add: print_line_def)
  have ti: "total_images ?st = total_images st4" by (simp add: print_line_def)
  have t4': "total_images st4 = length (concat (map (processed_images lb) matched_groups))"
    using t4 by simp
  have l4': "logged_failures new + total_success st4
               = length (concat (map (processed_images lb) matched_groups))"
    using l4 by simp
  have u4': "sum_list (map (\<lambda>s. fst (snd s)) (group_summaries new)) = total_success st4"
    using u4 by simp
  have c1: "total_images ?st = length (concat (map (processed_images lb) matched_groups))"
    unfolding ti by (rule t4')
  have c2: "reported_frames (printed ?st)
              = map fst (concat (map (processed_images lb) matched_groups))"
    by (simp add: pr hr r4 tr)
  have c3: "logged_failures (printed ?st) + total_success ?st = total_images ?st"
    unfolding ti ts t4' using l4' by (simp add: pr hl tr)
  have c4: "map (\<lambda>s. (fst s, snd (snd s))) (group_summaries (printed ?st))
              = concat (map (summary_heads lb) matched_groups)"
    using h4 by (simp add: pr hg tr)
  have c5: "sum_list (map (\<lambda>s. fst (snd s)) (group_summaries (printed ?st)))
              = total_success ?st"
    unfolding ts using u4' by (simp add: pr hg tr)
  have "printed ?st
          = (head @ new) @ [Complete,
                            FinalSummary (total_success ?st) (total_images ?st)
                              (length matched_groups),
                            AltitudeNote]"
    using p4 by (simp add: print_line_def tail_def)
  then have c6: "\<exists>pre. printed ?st
              = pre @ [Complete,
                       FinalSummary (total_success ?st) (total_images ?st)
                         (length matched_groups),
                       AltitudeNote]"
    by (rule exI)
  show ?thesis using run c1 c2 c3 c4 c5 c6 by blast
qed

text \<open>An extraction rate of zero: line 186 divides by it and the run ends there.\<close>

lemma geotag_dji_frames_zero_rate:
  assumes "matched_groups \<noteq> []"
  shows "\<exists>st.
           geotag_dji_frames lb cf matched_groups video_fps_input (Number 0) fs
             = Inl (ZeroDivisionError, st)
         \<and> files st = fs \<and> total_images st = 0 \<and> total_success st = 0
         \<and> reported_frames (printed st) = []"
proof -
  obtain evs_v v_fps where rv: "read_video_fps video_fps_input = (evs_v, v_fps)"
    by (cases "read_video_fps video_fps_input") auto
  have hv: "reported_frames evs_v = []"
    using read_video_fps_lines [of video_fps_input] rv by simp
  show ?thesis
    using assms hv group_info_lines [of matched_groups]
    by (simp add: geotag_dji_frames_def rv read_extraction_fps_def py_div_def print_line_def)
qed



text \<open>
  C7, as the code has it. A frame rate that is not a number is replaced by its
  default (29.97 and 5) after a message, and a number is taken as entered, also a
  negative one and a zero source rate. With any extraction entry but the number 0
  the run ends normally and counts and reports every image of every group whose
  subtitle file opens. With the extraction rate 0 the run ends at the division of
  line 186, before any frame: no image is counted or reported and no file is
  touched.
\<close>

theorem frame_rate_entries_not_validated:
  assumes "matched_groups \<noteq> []"
  shows "read_video_fps Malformed = ([InvalidFrameRate], 2997 / 100)
       \<and> read_extraction_fps Malformed = ([InvalidExtractionRate], 5)
       \<and> read_video_fps (Number v) = ([], v)
       \<and> read_extraction_fps (Number v) = ([], v)
       \<and> (extraction_fps_input \<noteq> Number 0 \<longrightarrow>
            (\<exists>st. geotag_dji_frames lb cf matched_groups video_fps_input
                     extraction_fps_input fs = Inr st
                 \<and> total_images st
                     = length (concat (map (processed_images lb) matched_groups))
                 \<and> reported_frames (printed st)
                     = map fst (concat (map (processed_images lb) matched_groups))))
       \<and> (\<exists>st. geotag_dji_frames lb cf matched_groups video_fps_input (Number 0) fs
                  = Inl (ZeroDivisionError, st)
              \<and> files st = fs \<and> total_images st = 0 \<and> total_success st = 0
              \<and> reported_frames (printed st) = [])"
proof -
  have run: "\<exists>st. geotag_dji_frames lb cf matched_groups video_fps_input
                     extraction_fps_input fs = Inr st
                 \<and> total_images st
                     = length (concat (map (processed_images lb) matched_groups))
                 \<and> reported_frames (printed st)
                     = map fst (concat (map (processed_images lb) matched_groups))"
    if "extraction_fps_input \<noteq> Number 0"
  proof -
    have "snd (read_extraction_fps extraction_fps_input) \<noteq> 0"
      using that by (cases extraction_fps_input) (simp_all add: read_extraction_fps_def)
    then show ?thesis
      using geotag_dji_frames_all [OF assms, of extraction_fps_input lb cf video_fps_input fs]
      by blast
  qed
  show ?thesis
    using run geotag_dji_frames_zero_rate [OF assms, of lb cf video_fps_input fs]
    by (simp add: read_video_fps_def read_extraction_fps_def)
qed

theorem frame_rate_entries_not_validated_witness:
  "(\<exists>st. geotag_dji_frames
       \<lparr>px_load = (\<lambda>fs p. Inr Map.empty), px_dump = (\<lambda>d. Inr ''Exif''),
        px_insert = (\<lambda>b p fs. (None, fs)),
        pysrt_open = (\<lambda>f. Inr [\<lparr>sub_start_ms = 0, sub_end_ms = 200,
           sub_text = ''[latitude: 40.123][longitude: -74.456][rel_alt: 10.0 abs_alt: 50.25]''\<rparr>])\<rparr>
       ''/d'' [(''DJI_0609'', ''DJI_0609.SRT'', [(''a.jpg'', 1), (''b.jpg'', 6)])]
       (Number 0) (Number (- 5)) () = Inr st
     \<and> total_images st = 2
     \<and> reported_frames (printed st) = [''a.jpg'', ''b.jpg''])
   \<and> (\<exists>st. geotag_dji_frames
       \<lparr>px_load = (\<lambda>fs p. Inr Map.empty), px_dump = (\<lambda>d. Inr ''Exif''),
        px_insert = (\<lambda>b p fs. (None, fs)),
        pysrt_open = (\<lambda>f. Inr [\<lparr>sub_start_ms = 0, sub_end_ms = 200,
           sub_text = ''[latitude: 40.123][longitude: -74.456][rel_alt: 10.0 abs_alt: 50.25]''\<rparr>])\<rparr>
       ''/d'' [(''DJI_0609'', ''DJI_0609.SRT'', [(''a.jpg'', 1), (''b.jpg'', 6)])]
       (Number 0) (Number 0) () = Inl (ZeroDivisionError, st)
     \<and> total_images st = 0)"
proof -
  let ?lb = "\<lparr>px_load = (\<lambda>fs p. Inr Map.empty), px_dump = (\<lambda>d. Inr ''Exif''),
        px_insert = (\<lambda>b p fs. (None, fs)),
        pysrt_open = (\<lambda>f. Inr [\<lparr>sub_start_ms = 0, sub_end_ms = 200,
           sub_text = ''[latitude: 40.123][longitude: -74.456][rel_alt: 10.0 abs_alt: 50.25]''\<rparr>])\<rparr>
       :: unit libs"
  let ?groups = "[(''DJI_0609'', ''DJI_0609.SRT'', [(''a.jpg'', 1), (''b.jpg'', 6)])]
                 :: video_group list"
  have ne: "?groups \<noteq> []" by simp
  have neg: "Number (- 5) \<noteq> Number 0" by simp
  have imgs: "concat (map (processed_images ?lb) ?groups) = [(''a.jpg'', 1), (''b.jpg'', 6)]"
    by (simp add: processed_images_def)
  note t = frame_rate_entries_not_validated
             [OF ne, of 0 "Number (- 5)" ?lb "''/d''" "Number 0" "()"]
  have a: "\<exists>st. geotag_dji_frames ?lb ''/d'' ?groups (Number 0) (Number (- 5)) () = Inr st
             \<and> total_images st = 2
             \<and> reported_frames (printed st) = [''a.jpg'', ''b.jpg'']"
    using t neg unfolding imgs by auto
  have b: "\<exists>st. geotag_dji_frames ?lb ''/d'' ?groups (Number 0) (Number 0) ()
                   = Inl (ZeroDivisionError, st) \<and> total_images st = 0"
    using t by blast
  show ?thesis using a b by blast
qed

text \<open>
  C7 as stated fails: with the extraction rate entered as \<open>abc\<close> (no number) and,
  in a second run, as \<open>-5\<close>, the run does not abort. It processes the frame and
  tags it.
\<close>

theorem frame_rate_not_fatal_counterexample:
  "geotag_dji_frames
     \<lparr>px_load = (\<lambda>fs p. Inr Map.empty), px_dump = (\<lambda>d. Inr ''Exif''),
      px_insert = (\<lambda>b p fs. (None, fs)),
      pysrt_open = (\<lambda>f. Inr [\<lparr>sub_start_ms = 0, sub_end_ms = 200,
         sub_text = ''[latitude: 40.123][longitude: -74.456][rel_alt: 10.0 abs_alt: 50.25]''\<rparr>])\<rparr>
     ''/d'' [(''DJI_0609'', ''DJI_0609.SRT'', [(''DJI_0609_000001.jpg'', 1)])]
     Blank Malformed ()
   = Inr \<lparr>files = (),
          printed = [FoundGroups 1, GroupInfo ''DJI_0609'' 1 ''DJI_0609.SRT'',
                     RateSettingsHeader, InvalidExtractionRate, VideoFpsInfo (2997 / 100),
                     ExtractionInfo 5 (2997 / 500), ProcessingGroup ''DJI_0609'',
                     SrtParsed ''DJI_0609.SRT'' 1,
                     Tagging ''DJI_0609_000001.jpg'' 1 (40123 / 1000) (- (9307 / 125))
                       (201 / 4) (Some 10),
                     GroupSummary ''DJI_0609'' 1 1, Complete, FinalSummary 1 1 1,
                     AltitudeNote],
          total_success = 1, total_images = 1\<rparr>
   \<and> geotag_dji_frames
     \<lparr>px_load = (\<lambda>fs p. Inr Map.empty), px_dump = (\<lambda>d. Inr ''Exif''),
      px_insert = (\<lambda>b p fs. (None, fs)),
      pysrt_open = (\<lambda>f. Inr [\<lparr>sub_start_ms = 0, sub_end_ms = 200,
         sub_text = ''[latitude: 40.123][longitude: -74.456][rel_alt: 10.0 abs_alt: 50.25]''\<rparr>])\<rparr>
     ''/d'' [(''DJI_0609'', ''DJI_0609.SRT'', [(''DJI_0609_000001.jpg'', 1)])]
     Blank (Number (- 5)) ()
   = Inr \<lparr>files = (),
          printed = [FoundGroups 1, GroupInfo ''DJI_0609'' 1 ''DJI_0609.SRT'',
                     RateSettingsHeader, VideoFpsInfo (2997 / 100),
                     ExtractionInfo (- 5) (- (2997 / 500)), ProcessingGroup ''DJI_0609'',
                     SrtParsed ''DJI_0609.SRT'' 1,
                     Tagging ''DJI_0609_000001.jpg'' 1 (40123 / 1000) (- (9307 / 125))
                       (201 / 4) (Some 10),
                     GroupSummary ''DJI_0609'' 1 1, Complete, FinalSummary 1 1 1,
                     AltitudeNote],
          total_success = 1, total_images = 1\<rparr>"
  by code_simp

section \<open>The metadata write\<close>

text \<open>
  What the source alone determines about \<open>set_gps_location\<close>, whatever the
  library calls do: the block handed to \<open>piexif.dump\<close> is the loaded one with the
  key \<open>GPS\<close> replaced; a failure of the load or of the dump leaves the files as
  they were; after the dump the files are what \<open>piexif.insert\<close> leaves; and the
  call returns \<open>True\<close> exactly when none of the three raised.
\<close>

lemma set_gps_location_frame:
  "set_gps_location lb fs file_path lat lon abs_alt rel_alt =
     (case px_load lb fs file_path of
        Inl e \<Rightarrow> ([ExifWriteError file_path e], fs, False)
      | Inr exif_dict \<Rightarrow>
          (case px_dump lb (\<lambda>k. if k = ''GPS''
                                  then Some (GPS_IFD (make_gps_ifd lat lon abs_alt))
                                  else exif_dict k) of
             Inl e \<Rightarrow> ([ExifWriteError file_path e], fs, False)
           | Inr exif_bytes \<Rightarrow>
               (case fst (px_insert lb exif_bytes file_path fs) of
                  Some e \<Rightarrow> [ExifWriteError file_path e]
                | None \<Rightarrow> [],
                snd (px_insert lb exif_bytes file_path fs),
                fst (px_insert lb exif_bytes file_path fs) = None)))"
proof -
  have upd: "exif_dict(''GPS'' \<mapsto> GPS_IFD (make_gps_ifd lat lon abs_alt))
               = (\<lambda>k. if k = ''GPS'' then Some (GPS_IFD (make_gps_ifd lat lon abs_alt))
                       else exif_dict k)" for exif_dict :: exif_dict
    by (rule ext) simp
  show ?thesis
  proof (cases "px_load lb fs file_path")
    case (Inl e)
    then show ?thesis by (simp add: set_gps_location_def)
  next
    case (Inr d)
    note ld = Inr
    show ?thesis
    proof (cases "px_dump lb (d(''GPS'' \<mapsto> GPS_IFD (make_gps_ifd lat lon abs_alt)))")
      case (Inl e)
      then show ?thesis using ld by (simp add: set_gps_location_def flip: upd)
    next
      case (Inr bytes)
      obtain r fs' where ins: "px_insert lb bytes file_path fs = (r, fs')"
        by (cases "px_insert lb bytes file_path fs") auto
      show ?thesis using ld Inr ins
        by (cases r) (simp_all add: set_gps_location_def flip: upd)
    qed
  qed
qed

section \<open>The pattern attempts against the regular expressions\<close>

text \<open>
  \<open>match_here\<close> against the language of the pattern with the closing bracket. A
  match of \<open>key \s* ([-\d.]+) ]\<close> at the start of \<open>s\<close> splits \<open>s\<close> into the key, a
  run of white space, a non-empty run of group characters, the bracket and a rest.
  \<open>match_here\<close> returns the group of every such split, and returns a group only
  for such a split: no other way to match exists for backtracking to find.
\<close>

lemma space_not_num_char: "is_space c \<Longrightarrow> \<not> is_num_char c"
  unfolding is_space_def is_num_char_def is_digit_def Let_def by auto

lemma bracket_not_num_char: "\<not> is_num_char CHR '']''"
  by (simp add: is_num_char_def is_digit_def)

lemma strip_prefix_append: "strip_prefix key (key @ r) = Some r"
  by (induction key) simp_all

lemma dropWhile_run:
  assumes "\<forall>c \<in> set xs. P c" and "ys = [] \<or> \<not> P (hd ys)"
  shows "dropWhile P (xs @ ys) = ys"
  using assms by (induction xs) (auto simp: dropWhile_eq_self_iff)

lemma takeWhile_run:
  assumes "\<forall>c \<in> set xs. P c" and "ys = [] \<or> \<not> P (hd ys)"
  shows "takeWhile P (xs @ ys) = xs"
  using assms by (induction xs) (auto simp: takeWhile_eq_Nil_iff)

lemma match_here_closing_complete:
  assumes "\<forall>c \<in> set ws. is_space c" and "grp \<noteq> []" and "\<forall>c \<in> set grp. is_num_char c"
  shows "match_here key True (key @ ws @ grp @ CHR '']'' # rest) = Some grp"
proof -
  have g: "\<not> is_space (hd (grp @ CHR '']'' # rest))"
    using assms(2,3) space_not_num_char by (cases grp) auto
  have d1: "dropWhile is_space (ws @ (grp @ CHR '']'' # rest)) = grp @ CHR '']'' # rest"
    by (rule dropWhile_run) (use assms(1) g in auto)
  have b: "\<not> is_num_char (hd (CHR '']'' # rest))"
    using bracket_not_num_char by simp
  have t: "takeWhile is_num_char (grp @ (CHR '']'' # rest)) = grp"
    by (rule takeWhile_run) (use assms(3) b in auto)
  have d2: "dropWhile is_num_char (grp @ (CHR '']'' # rest)) = CHR '']'' # rest"
    by (rule dropWhile_run) (use assms(3) b in auto)
  show ?thesis
    unfolding match_here_def strip_prefix_append option.case Let_def d1 t d2
    using assms(2) by simp
qed

lemma strip_prefix_Some: "strip_prefix key s = Some r \<Longrightarrow> s = key @ r"
proof (induction key s rule: strip_prefix.induct)
  case (1 s)
  then show ?case by simp
next
  case (2 p ps)
  then show ?case by simp
next
  case (3 p ps c cs)
  then show ?case by (cases "p = c") simp_all
qed

lemma match_here_closing_sound:
  assumes "match_here key True s = Some grp"
  shows "\<exists>ws rest. s = key @ ws @ grp @ CHR '']'' # rest
           \<and> (\<forall>c \<in> set ws. is_space c) \<and> grp \<noteq> [] \<and> (\<forall>c \<in> set grp. is_num_char c)"
proof -
  obtain r where r: "strip_prefix key s = Some r"
    using assms by (cases "strip_prefix key s") (simp_all add: match_here_def)
  define ws where "ws = takeWhile is_space r"
  define r1 where "r1 = dropWhile is_space r"
  define g where "g = takeWhile is_num_char r1"
  define r2 where "r2 = dropWhile is_num_char r1"
  have m: "match_here key True s
             = (if g = [] then None
                else case r2 of [] \<Rightarrow> None
                     | c # x \<Rightarrow> if c = CHR '']'' then Some g else None)"
    unfolding match_here_def r option.case Let_def g_def r2_def r1_def by simp
  have gne: "g \<noteq> []"
  proof
    assume "g = []"
    then have "match_here key True s = None" unfolding m by simp
    then show False using assms by simp
  qed
  have m2: "(case r2 of [] \<Rightarrow> None
             | c # x \<Rightarrow> if c = CHR '']'' then Some g else None) = Some grp"
    using assms gne unfolding m by simp
  obtain c rest where r2c: "r2 = c # rest"
    using m2 by (cases r2) simp_all
  have m3: "(if c = CHR '']'' then Some g else None) = Some grp"
    using m2 unfolding r2c by simp
  have cb: "c = CHR '']''"
  proof (rule ccontr)
    assume "c \<noteq> CHR '']''"
    then show False using m3 by simp
  qed
  have gg: "g = grp" using m3 cb by simp
  have rw: "r = ws @ r1" unfolding ws_def r1_def by simp
  have r1g: "r1 = g @ r2" unfolding g_def r2_def by simp
  have "s = key @ r" by (rule strip_prefix_Some [OF r])
  then have split: "s = key @ ws @ grp @ CHR '']'' # rest"
    unfolding rw r1g r2c cb gg by simp
  have sp: "\<forall>c \<in> set ws. is_space c"
  proof
    fix c assume "c \<in> set ws"
    then show "is_space c" unfolding ws_def by (rule set_takeWhileD [THEN conjunct2])
  qed
  have nm: "\<forall>c \<in> set grp. is_num_char c"
  proof
    fix c assume "c \<in> set grp"
    then have "c \<in> set (takeWhile is_num_char r1)" unfolding gg [symmetric] g_def .
    then show "is_num_char c" by (rule set_takeWhileD [THEN conjunct2])
  qed
  have "grp \<noteq> []" using gne gg by simp
  then show ?thesis using split sp nm by blast
qed

end
